theory Spec2Isabelle
  imports Complex_Main "HOL-Library.Word"
begin

section \<open>Data model of the lighting server (src/index.js)\<close>

text \<open>
  JavaScript numbers are idealised as real numbers. The slot data of a universe's packet
  comes from the e131 library, which is not part of the sources.
\<close>

type_synonym byte = "8 word"

text \<open>
  Modelled from the spec: the slot data returned by \<open>getSlotsData()\<close> is "an ordered,
  fixed-length (N) sequence of intensity values (0-255)", that is a byte buffer. A store
  at an index inside the buffer keeps the stored number as a byte (truncated towards zero,
  modulo 256); a store at an index outside the buffer changes nothing.
\<close>

definition to_uint8 :: "real \<Rightarrow> byte" where
  "to_uint8 x = word_of_int (if 0 \<le> x then \<lfloor>x\<rfloor> else \<lceil>x\<rceil>)"

definition buf_write :: "byte list \<Rightarrow> nat \<Rightarrow> real \<Rightarrow> byte list" where
  "buf_write buf i v = (if i < length buf then buf[i := to_uint8 v] else buf)"

text \<open>
  What the program does that can be observed, in the order it happens. Each entry of the
  trace is tagged with the value of the frame counter at that moment.
\<close>

datatype event =
    Updating nat
  | Store nat nat real
  | UnhandledType string
  | Sending nat "byte list"
  | Transmit nat "byte list"
  | Overrun
  | Timeout real

text \<open>
  The mutable state: the slot data of each universe (by position in the universe list),
  the \<open>_candle\<close> property of each channel's configuration object (by position in the
  channel list), the frame counter of the loop, and the trace.
\<close>

record 'c state =
  bufs :: "nat \<Rightarrow> byte list"
  candles :: "nat \<Rightarrow> 'c option"
  frame :: nat
  trace :: "(nat \<times> event) list"

definition emit :: "event \<Rightarrow> 'c state \<Rightarrow> 'c state" where
  "emit ev st = st\<lparr>trace := trace st @ [(frame st, ev)]\<rparr>"

definition store :: "nat \<Rightarrow> nat \<Rightarrow> real \<Rightarrow> 'c state \<Rightarrow> 'c state" where
  "store u i v st = emit (Store u i v) (st\<lparr>bufs := (bufs st)(u := buf_write (bufs st u) i v)\<rparr>)"

text \<open>
  \<open>Channel._set(data)\<close>: the loop variable starts at the channel's offset and runs up to
  the length of the data; it indexes both the data and the universe's slot data.
\<close>

function set_loop :: "nat \<Rightarrow> nat \<Rightarrow> real list \<Rightarrow> 'c state \<Rightarrow> 'c state" where
  "set_loop u i d st = (if i < length d then set_loop u (Suc i) d (store u i (d ! i) st) else st)"
  by pat_completeness auto
termination
  by (relation "measure (\<lambda>(u, i, d, st). length d - i)") auto


section \<open>Color model: \<open>parseColorToHsv\<close>\<close>

text \<open>
  The conversions of the color-convert library are not part of the sources; they are
  parameters. A conversion that "yields no result" (a falsy value in the source) is
  \<open>None\<close>. The library returns arrays of three numbers.
\<close>

type_synonym color = "real \<times> real \<times> real"

record colorlib =
  keyword_hsv :: "string \<Rightarrow> color option"
  rgb_hsv :: "string \<Rightarrow> color option"
  hsv_hsv :: "string \<Rightarrow> color option"
  hex_hsv :: "string \<Rightarrow> color option"
  hsv_rgb :: "color \<Rightarrow> color"

datatype error = Error string | TypeError | RangeError

definition startsWith :: "string \<Rightarrow> string \<Rightarrow> bool" where
  "startsWith str p = (take (length p) str = p)"

text \<open>
  The result is \<open>Inl\<close> for a thrown error, \<open>Inr None\<close> when the function runs off its
  end and returns \<open>undefined\<close>, \<open>Inr (Some c)\<close> for a color. The third message is spelled
  as in the source.
\<close>

definition parseColorToHsv :: "colorlib \<Rightarrow> string \<Rightarrow> error + color option" where
  "parseColorToHsv L str =
     (case keyword_hsv L str of
        Some c \<Rightarrow> Inr (Some c)
      | None \<Rightarrow>
          if startsWith str ''rgb'' then
            (case rgb_hsv L str of
               None \<Rightarrow> Inl (Error (''Unknown color: '' @ str))
             | Some c \<Rightarrow> Inr (Some c))
          else if startsWith str ''hsv'' then
            (case hsv_hsv L str of
               None \<Rightarrow> Inl (Error (''Unknown color: '' @ str))
             | Some c \<Rightarrow> Inr (Some c))
          else if startsWith str ''0x'' then
            (case hex_hsv L str of
               None \<Rightarrow> Inl (Error (''Unkown color: '' @ str))
             | Some c \<Rightarrow> Inr (Some c))
          else Inr None)"

section \<open>Channel\<close>

text \<open>
  The Candle class (\<open>./vendor/candle\<close>) is not part of the sources; its constructor, its
  \<open>update()\<close> and its \<open>flame\<close> property are parameters over a simulator state \<open>'c\<close>.
\<close>

record candle_config =
  level :: "real \<times> real"

record 'c candlelib =
  Candle_new :: "candle_config \<Rightarrow> 'c"
  Candle_update :: "'c \<Rightarrow> 'c"
  Candle_flame :: "'c \<Rightarrow> real"

record channel_config =
  universe :: string
  channel :: nat
  ctype :: string
  hue :: string
  effect :: "string option"
  candle :: "candle_config option"

text \<open>
  A constructed Channel: its configuration object (\<open>cid\<close> is the object's position in the
  configured channel list) and the universe it was wired to (by position).
\<close>

record channel =
  cid :: nat
  config :: channel_config
  univ :: nat

definition Channel_set :: "channel \<Rightarrow> real list \<Rightarrow> 'c state \<Rightarrow> 'c state" where
  "Channel_set ch d st = set_loop (univ ch) (channel (config ch)) d st"

definition color_list :: "color \<Rightarrow> real list" where
  "color_list c = (case c of (x, y, z) \<Rightarrow> [x, y, z])"

text \<open>
  Lines 112-123 of \<open>Channel.update\<close>: the candle effect. Reading \<open>f.level\<close> of a missing
  candle block and assigning \<open>hsv[2]\<close> of an undefined color are TypeErrors; the second
  one is raised after the simulator was created and advanced.
\<close>

definition apply_effect ::
  "'c candlelib \<Rightarrow> channel \<Rightarrow> color option \<Rightarrow> 'c state \<Rightarrow> (error + color option) \<times> 'c state" where
  "apply_effect K ch hsv st =
     (let c = config ch in
      if effect c = Some ''candle'' then
        (case candle c of
           None \<Rightarrow> (Inl TypeError, st)
         | Some f \<Rightarrow>
             let value = level f;
                 cd = (case candles st (cid ch) of None \<Rightarrow> Candle_new K f | Some s \<Rightarrow> s);
                 cd' = Candle_update K cd;
                 st' = st\<lparr>candles := (candles st)(cid ch := Some cd')\<rparr>;
                 flame = Candle_flame K cd' / 255
             in (case hsv of
                   None \<Rightarrow> (Inl TypeError, st')
                 | Some (h, s, v) \<Rightarrow> (Inr (Some (h, s, (flame * snd value) + fst value)), st')))
      else (Inr hsv, st))"

text \<open>
  Lines 125-131: the output step. \<open>_set(undefined)\<close> reads \<open>data.length\<close> of undefined, a
  TypeError.
\<close>

definition write_out :: "colorlib \<Rightarrow> channel \<Rightarrow> color option \<Rightarrow> 'c state \<Rightarrow> error option \<times> 'c state" where
  "write_out L ch hsv st =
     (let c = config ch in
      if ctype c = ''hsv'' then
        (case hsv of
           None \<Rightarrow> (Some TypeError, st)
         | Some x \<Rightarrow> (None, Channel_set ch (color_list x) st))
      else if ctype c = ''rgb'' then
        (case hsv of
           None \<Rightarrow> (Some TypeError, st)
         | Some x \<Rightarrow> (None, Channel_set ch (color_list (hsv_rgb L x)) st))
      else (None, emit (UnhandledType (ctype c)) st))"

text \<open>
  \<open>Channel.update()\<close>. The result is the thrown error, if any, with the state as the call
  left it.
\<close>

definition update :: "colorlib \<Rightarrow> 'c candlelib \<Rightarrow> channel \<Rightarrow> 'c state \<Rightarrow> error option \<times> 'c state" where
  "update L K ch st0 =
     (let st = emit (Updating (cid ch)) st0 in
      case parseColorToHsv L (hue (config ch)) of
        Inl e \<Rightarrow> (Some e, st)
      | Inr hsv0 \<Rightarrow>
          (case apply_effect K ch hsv0 st of
             (Inl e, st1) \<Rightarrow> (Some e, st1)
           | (Inr hsv, st1) \<Rightarrow> write_out L ch hsv st1))"

section \<open>Universe\<close>

record universe_config =
  name :: string
  ip :: string
  channels :: nat

text \<open>
  \<open>Universe.send()\<close>: the debug log, then \<open>return Promise.resolve()\<close>. The result is the
  error of a rejected promise, if any.
\<close>

definition send :: "nat \<Rightarrow> 'c state \<Rightarrow> error option \<times> 'c state" where
  "send u st = (None, emit (Sending u (bufs st u)) st)"

text \<open>
  The statements of \<open>send()\<close> after that return (lines 64-69), which are never reached:
  the packet is handed to the transport, whose callback rejects with the transport's error.
  The transport is a parameter.
\<close>

definition send_unreachable :: "(nat \<Rightarrow> byte list \<Rightarrow> error option) \<Rightarrow> nat \<Rightarrow> 'c state \<Rightarrow> error option \<times> 'c state" where
  "send_unreachable client_send u st = (client_send u (bufs st u), emit (Transmit u (bufs st u)) st)"


section \<open>Startup and the frame loop\<close>

text \<open>
  \<open>universes.find(u => u._config.name === c.universe)\<close>: the first universe of that name.
\<close>

fun find_universe :: "universe_config list \<Rightarrow> string \<Rightarrow> nat option" where
  "find_universe [] n = None"
| "find_universe (u # us) n =
     (if name u = n then Some 0 else map_option Suc (find_universe us n))"

text \<open>
  \<open>config.get('channels').map(...)\<close>: the channels are constructed in order; the first one
  whose universe is not found throws.
\<close>

fun wire :: "universe_config list \<Rightarrow> nat \<Rightarrow> channel_config list \<Rightarrow> error + channel list" where
  "wire us j [] = Inr []"
| "wire us j (c # cs) =
     (case find_universe us (universe c) of
        None \<Rightarrow> Inl (Error ''No matching universe'')
      | Some u \<Rightarrow>
          (case wire us (Suc j) cs of
             Inl e \<Rightarrow> Inl e
           | Inr chs \<Rightarrow> Inr (\<lparr>cid = j, config = c, univ = u\<rparr> # chs)))"

text \<open>
  The state after the universes are constructed: each packet has as many slots as the
  universe's channel count, all zero; no simulator exists; the frame counter is 0.
\<close>

definition init_state :: "universe_config list \<Rightarrow> 'c state" where
  "init_state us =
     \<lparr>bufs = (\<lambda>u. if u < length us then replicate (channels (us ! u)) 0 else []),
      candles = (\<lambda>j. None), frame = 0, trace = []\<rparr>"

text \<open>
  \<open>channels.map(c => c.update())\<close>: \<open>update\<close> is an ordinary method, so an error thrown by
  one call leaves the \<open>map\<close> at once.
\<close>

fun updates :: "colorlib \<Rightarrow> 'c candlelib \<Rightarrow> channel list \<Rightarrow> 'c state \<Rightarrow> error option \<times> 'c state" where
  "updates L K [] st = (None, st)"
| "updates L K (ch # chs) st =
     (case update L K ch st of
        (Some e, st') \<Rightarrow> (Some e, st')
      | (None, st') \<Rightarrow> updates L K chs st')"

text \<open>
  \<open>Promise.all(universes.map(u => u.send()))\<close>: \<open>send\<close> is an async function, so every
  call is made and the first rejection, if any, rejects the whole.
\<close>

fun sends :: "nat list \<Rightarrow> 'c state \<Rightarrow> error option \<times> 'c state" where
  "sends [] st = (None, st)"
| "sends (u # us) st =
     (case send u st of
        (r, st') \<Rightarrow>
          (case sends us st' of
             (rs, st'') \<Rightarrow> ((case r of Some e \<Rightarrow> Some e | None \<Rightarrow> rs), st'')))"

definition RATE :: real where
  "RATE = 30"

definition NOMINAL_DELAY :: real where
  "NOMINAL_DELAY = (1 / RATE) * 1000"

text \<open>
  What the loop reads from outside: the clock when the loop is set up, the clock read in
  frame \<open>k\<close> after its sends, and the \<open>quit\<close> flag as it stands when \<open>loop\<close> is entered with
  the frame counter at \<open>k\<close>.
\<close>

record env =
  start :: real
  now :: "nat \<Rightarrow> real"
  quit :: "nat \<Rightarrow> bool"

text \<open>
  How a run ends: the loop's promise resolved after \<open>quit\<close>; an error rejected the promise
  of a \<open>loop\<close> call and no timer is set; the timer is set and the given number of frames
  is used up; or startup failed before the loop.
\<close>

datatype outcome = Resolved | Rejected error | Pending | Fatal error

text \<open>
  \<open>loop\<close>, with one unit of fuel for each call of it. \<open>wait\<close> is declared \<open>const\<close>, so the
  assignment \<open>wait = 0\<close> throws a TypeError.
\<close>

fun loop ::
  "nat \<Rightarrow> env \<Rightarrow> colorlib \<Rightarrow> 'c candlelib \<Rightarrow> channel list \<Rightarrow> nat \<Rightarrow> 'c state \<Rightarrow> outcome \<times> 'c state" where
  "loop 0 E L K chs nu st = (Pending, st)"
| "loop (Suc fuel) E L K chs nu st =
     (if quit E (frame st) then (Resolved, st)
      else
        let st1 = st\<lparr>frame := frame st + 1\<rparr> in
        case updates L K chs st1 of
          (Some e, st2) \<Rightarrow> (Rejected e, st2)
        | (None, st2) \<Rightarrow>
            (case sends [0..<nu] st2 of
               (Some e, st3) \<Rightarrow> (Rejected e, st3)
             | (None, st3) \<Rightarrow>
                 let target = start E + (NOMINAL_DELAY * real (frame st3));
                     wait = target - now E (frame st3)
                 in if wait \<le> 0 then (Rejected TypeError, emit Overrun st3)
                    else loop fuel E L K chs nu (emit (Timeout wait) st3)))"

text \<open>
  \<open>new Universe(u)\<close> creates the e131 client and its packet. The e131 library is not part
  of the sources: whether these calls throw for a universe's configuration is a parameter
  (\<open>Some e\<close> for the error thrown, \<open>None\<close> when the universe is constructed).
  \<open>config.get('universes').map(...)\<close> constructs the universes in order; the first
  constructor that throws ends the \<open>map\<close>.
\<close>

type_synonym e131 = "universe_config \<Rightarrow> error option"

fun universes_new :: "e131 \<Rightarrow> universe_config list \<Rightarrow> error option" where
  "universes_new U [] = None"
| "universes_new U (u # us) =
     (case U u of
        Some e \<Rightarrow> Some e
      | None \<Rightarrow> universes_new U us)"

text \<open>
  The server: universes, channels, then the loop. An error thrown before the loop is
  caught at the top level and logged as fatal; when a universe's constructor throws, no
  universe list exists.
\<close>

definition main ::
  "e131 \<Rightarrow> env \<Rightarrow> colorlib \<Rightarrow> 'c candlelib \<Rightarrow> universe_config list \<Rightarrow> channel_config list \<Rightarrow> nat
     \<Rightarrow> outcome \<times> 'c state" where
  "main U E L K us cs fuel =
     (case universes_new U us of
        Some e \<Rightarrow> (Fatal e, init_state [])
      | None \<Rightarrow>
          (case wire us 0 cs of
             Inl e \<Rightarrow> (Fatal e, init_state us)
           | Inr chs \<Rightarrow> loop fuel E L K chs (length us) (init_state us)))"

section \<open>The order of a tick's events\<close>

text \<open>
  The events of a tick fall into three phases: the channel updates (0), the universe
  sends (1) and the scheduling of the next tick (2). An entry's stamp orders it by frame
  first and phase second.
\<close>

fun phase :: "event \<Rightarrow> nat" where
  "phase (Updating j) = 0"
| "phase (Store u i v) = 0"
| "phase (UnhandledType t) = 0"
| "phase (Sending u d) = 1"
| "phase (Transmit u d) = 1"
| "phase Overrun = 2"
| "phase (Timeout w) = 2"

definition stamp :: "nat \<times> event \<Rightarrow> nat" where
  "stamp e = 3 * fst e + phase (snd e)"

definition stamped_upto :: "nat \<Rightarrow> (nat \<times> event) list \<Rightarrow> bool" where
  "stamped_upto n tr = (sorted (map stamp tr) \<and> (\<forall>e \<in> set tr. stamp e \<le> n))"

fun is_store :: "event \<Rightarrow> bool" where
  "is_store (Store u i v) = True"
| "is_store ev = False"

fun is_transmit :: "event \<Rightarrow> bool" where
  "is_transmit (Transmit u d) = True"
| "is_transmit ev = False"

text \<open>
  The channels that \<open>wire\<close> constructs when every universe name resolves (a configuration
  whose universe is not found contributes none).
\<close>

fun wired :: "universe_config list \<Rightarrow> nat \<Rightarrow> channel_config list \<Rightarrow> channel list" where
  "wired us j [] = []"
| "wired us j (c # cs) =
     (case find_universe us (universe c) of
        None \<Rightarrow> wired us (Suc j) cs
      | Some u \<Rightarrow> \<lparr>cid = j, config = c, univ = u\<rparr> # wired us (Suc j) cs)"

text \<open>A channel updated \<open>n\<close> times in a row.\<close>

fun update_n :: "nat \<Rightarrow> colorlib \<Rightarrow> 'c candlelib \<Rightarrow> channel \<Rightarrow> 'c state \<Rightarrow> 'c state" where
  "update_n 0 L K ch st = st"
| "update_n (Suc n) L K ch st = update_n n L K ch (snd (update L K ch st))"

section \<open>Example inputs\<close>

text \<open>
  A small color library, a deterministic simulator, one universe \<open>stage\<close> of six channels
  and channels on it, used to run the definitions on concrete inputs.
\<close>

definition ex_lib :: colorlib where
  "ex_lib =
     \<lparr>keyword_hsv = (\<lambda>s. if s = ''red'' then Some (0, 100, 100)
                         else if s = ''peru'' then Some (30, 69, 80) else None),
      rgb_hsv = (\<lambda>s. if s = ''rgb(255,0,0)'' then Some (0, 100, 100) else None),
      hsv_hsv = (\<lambda>s. None),
      hex_hsv = (\<lambda>s. None),
      hsv_rgb = (\<lambda>c. if c = (0, 100, 100) then (255, 0, 0)
                     else if c = (30, 69, 80) then (204, 134, 63) else (0, 0, 0))\<rparr>"

definition ex_candle :: "nat candlelib" where
  "ex_candle =
     \<lparr>Candle_new = (\<lambda>f. 0), Candle_update = (\<lambda>n. (n + 51) mod 256), Candle_flame = real\<rparr>"

definition ex_universe :: universe_config where
  "ex_universe = \<lparr>name = ''stage'', ip = ''10.0.0.1'', channels = 6\<rparr>"

definition ex_config :: "nat \<Rightarrow> string \<Rightarrow> string \<Rightarrow> channel_config" where
  "ex_config off t h =
     \<lparr>universe = ''stage'', channel = off, ctype = t, hue = h, effect = None, candle = None\<rparr>"

definition ex_channel :: "nat \<Rightarrow> nat \<Rightarrow> string \<Rightarrow> string \<Rightarrow> channel" where
  "ex_channel j off t h = \<lparr>cid = j, config = ex_config off t h, univ = 0\<rparr>"

definition ex_flicker :: channel where
  "ex_flicker =
     \<lparr>cid = 0,
      config = \<lparr>universe = ''stage'', channel = 0, ctype = ''hsv'', hue = ''red'',
                effect = Some ''candle'', candle = Some \<lparr>level = (50, 100)\<rparr>\<rparr>,
      univ = 0\<rparr>"

definition ex_state :: "nat state" where
  "ex_state = init_state [ex_universe]"

text \<open>A clock on which every frame is in time, with \<open>quit\<close> set after two frames.\<close>

definition ex_env :: env where
  "ex_env = \<lparr>start = 0, now = (\<lambda>k. 30 * real k), quit = (\<lambda>k. 2 \<le> k)\<rparr>"

text \<open>A clock on which every frame takes 40 ms, and \<open>quit\<close> is never set.\<close>

definition ex_env_late :: env where
  "ex_env_late = \<lparr>start = 0, now = (\<lambda>k. 40 * real k), quit = (\<lambda>k. False)\<rparr>"

text \<open>A packet constructor that accepts 1 to 512 slots, and a universe it refuses.\<close>

definition ex_e131 :: e131 where
  "ex_e131 u = (if 1 \<le> channels u \<and> channels u \<le> 512 then None else Some RangeError)"

definition ex_universe_empty :: universe_config where
  "ex_universe_empty = \<lparr>name = ''stage'', ip = ''10.0.0.1'', channels = 0\<rparr>"

text \<open>A transport that refuses every packet.\<close>

definition ex_transport_down :: "nat \<Rightarrow> byte list \<Rightarrow> error option" where
  "ex_transport_down u d = Some (Error ''EHOSTUNREACH'')"

section \<open>Properties of the buffer write\<close>

declare set_loop.simps [simp del]

lemma emit_simps [simp]:
  "trace (emit ev st) = trace st @ [(frame st, ev)]"
  "frame (emit ev st) = frame st"
  "candles (emit ev st) = candles st"
  "bufs (emit ev st) = bufs st"
  by (simp_all add: emit_def)

lemma store_simps [simp]:
  "trace (store u i v st) = trace st @ [(frame st, Store u i v)]"
  "frame (store u i v st) = frame st"
  "candles (store u i v st) = candles st"
  "bufs (store u i v st) = (bufs st)(u := buf_write (bufs st u) i v)"
  by (simp_all add: store_def)

lemma length_buf_write [simp]: "length (buf_write b i v) = length b"
  by (simp add: buf_write_def)

lemma buf_write_nth:
  "k < length b \<Longrightarrow> buf_write b i v ! k = (if k = i then to_uint8 v else b ! k)"
  by (simp add: buf_write_def nth_list_update)

lemma set_loop_frame [simp]: "frame (set_loop u i d st) = frame st"
proof (induction u i d st rule: set_loop.induct)
  case (1 u i d st)
  then show ?case by (subst set_loop.simps) simp
qed

lemma set_loop_candles [simp]: "candles (set_loop u i d st) = candles st"
proof (induction u i d st rule: set_loop.induct)
  case (1 u i d st)
  then show ?case by (subst set_loop.simps) simp
qed

lemma set_loop_trace:
  "trace (set_loop u i d st) =
     trace st @ map (\<lambda>k. (frame st, Store u k (d ! k))) [i..<length d]"
proof (induction u i d st rule: set_loop.induct)
  case (1 u i d st)
  then show ?case
    by (subst set_loop.simps) (simp add: upt_conv_Cons)
qed

lemma set_loop_bufs_other: "u' \<noteq> u \<Longrightarrow> bufs (set_loop u i d st) u' = bufs st u'"
proof (induction u i d st rule: set_loop.induct)
  case (1 u i d st)
  then show ?case by (subst set_loop.simps) simp
qed

lemma set_loop_length [simp]: "length (bufs (set_loop u i d st) u') = length (bufs st u')"
proof (induction u i d st rule: set_loop.induct)
  case (1 u i d st)
  then show ?case by (subst set_loop.simps) simp
qed

lemma set_loop_nth:
  "k < length (bufs st u) \<Longrightarrow>
   bufs (set_loop u i d st) u ! k =
     (if i \<le> k \<and> k < length d then to_uint8 (d ! k) else bufs st u ! k)"
proof (induction u i d st rule: set_loop.induct)
  case (1 u i d st)
  show ?case
  proof (cases "i < length d")
    case True
    let ?st = "store u i (d ! i) st"
    have len: "k < length (bufs ?st u)" using "1.prems" by simp
    have "bufs (set_loop u i d st) u ! k = bufs (set_loop u (Suc i) d ?st) u ! k"
      using True by (subst set_loop.simps) simp
    also have "\<dots> = (if Suc i \<le> k \<and> k < length d then to_uint8 (d ! k) else bufs ?st u ! k)"
      using "1.IH" [OF True len] .
    also have "bufs ?st u ! k = (if k = i then to_uint8 (d ! i) else bufs st u ! k)"
      using "1.prems" by (simp add: buf_write_nth)
    finally show ?thesis using True by (cases "k = i") auto
  next
    case False
    then show ?thesis by (subst set_loop.simps) auto
  qed
qed

lemma set_loop_bufs:
  "bufs (set_loop u i d st) u =
     map (\<lambda>k. if i \<le> k \<and> k < length d then to_uint8 (d ! k) else bufs st u ! k)
       [0..<length (bufs st u)]"
  by (rule nth_equalityI) (simp_all add: set_loop_nth)

lemma set_loop_past_end: "length d \<le> i \<Longrightarrow> set_loop u i d st = st"
  by (subst set_loop.simps) simp


lemma Channel_set_simps [simp]:
  "frame (Channel_set ch d st) = frame st"
  "candles (Channel_set ch d st) = candles st"
  "trace (Channel_set ch d st) =
     trace st @ map (\<lambda>i. (frame st, Store (univ ch) i (d ! i))) [channel (config ch)..<length d]"
  "bufs (Channel_set ch d st) (univ ch) =
     map (\<lambda>i. if channel (config ch) \<le> i \<and> i < length d then to_uint8 (d ! i)
               else bufs st (univ ch) ! i)
       [0..<length (bufs st (univ ch))]"
  by (simp_all add: Channel_set_def set_loop_trace set_loop_bufs)

lemma Channel_set_bufs_other: "u' \<noteq> univ ch \<Longrightarrow> bufs (Channel_set ch d st) u' = bufs st u'"
  by (simp add: Channel_set_def set_loop_bufs_other)

lemma length_color_list [simp]: "length (color_list c) = 3"
  by (cases c) (simp add: color_list_def)

lemma Channel_set_past_end:
  "3 \<le> channel (config ch) \<Longrightarrow> Channel_set ch (color_list x) st = st"
  by (simp add: Channel_set_def set_loop_past_end)

lemma to_uint8_numeral [simp]: "to_uint8 (numeral n) = numeral n"
  by (simp add: to_uint8_def)

lemma to_uint8_0 [simp]: "to_uint8 0 = 0"
  by (simp add: to_uint8_def)

section \<open>Properties of \<open>Channel.update\<close>\<close>

lemma apply_effect_keeps [simp]:
  "frame (snd (apply_effect K ch hsv st)) = frame st"
  "trace (snd (apply_effect K ch hsv st)) = trace st"
  "bufs (snd (apply_effect K ch hsv st)) = bufs st"
  by (simp_all add: apply_effect_def Let_def split: option.splits prod.splits)

lemma write_out_past_end:
  "3 \<le> channel (config ch) \<Longrightarrow>
   bufs (snd (write_out L ch hsv st)) = bufs st
   \<and> filter (is_store \<circ> snd) (trace (snd (write_out L ch hsv st))) =
       filter (is_store \<circ> snd) (trace st)"
  by (simp add: write_out_def Let_def Channel_set_past_end split: option.splits)

lemma write_out_frame [simp]: "frame (snd (write_out L ch hsv st)) = frame st"
  by (simp add: write_out_def Let_def split: option.splits)

lemma write_out_candles [simp]: "candles (snd (write_out L ch hsv st)) = candles st"
  by (simp add: write_out_def Let_def split: option.splits)

lemma write_out_trace:
  "\<exists>evs. trace (snd (write_out L ch hsv st)) = trace st @ evs
     \<and> (\<forall>e \<in> set evs. stamp e = 3 * frame st)"
  by (auto simp: write_out_def Let_def stamp_def split: option.splits)

lemma update_cases:
  "(\<exists>e. parseColorToHsv L (hue (config ch)) = Inl e
        \<and> update L K ch st = (Some e, emit (Updating (cid ch)) st))
   \<or> (\<exists>hsv0 e. parseColorToHsv L (hue (config ch)) = Inr hsv0
        \<and> fst (apply_effect K ch hsv0 (emit (Updating (cid ch)) st)) = Inl e
        \<and> update L K ch st = (Some e, snd (apply_effect K ch hsv0 (emit (Updating (cid ch)) st))))
   \<or> (\<exists>hsv0 hsv. parseColorToHsv L (hue (config ch)) = Inr hsv0
        \<and> fst (apply_effect K ch hsv0 (emit (Updating (cid ch)) st)) = Inr hsv
        \<and> update L K ch st = write_out L ch hsv (snd (apply_effect K ch hsv0 (emit (Updating (cid ch)) st))))"
proof (cases "parseColorToHsv L (hue (config ch))")
  case (Inl e)
  then show ?thesis by (simp add: update_def)
next
  case (Inr hsv0)
  then show ?thesis
    by (cases "apply_effect K ch hsv0 (emit (Updating (cid ch)) st)")
       (auto simp: update_def split: sum.splits)
qed

lemma update_frame [simp]: "frame (snd (update L K ch st)) = frame st"
  using update_cases [of L ch K st] by auto

lemma update_trace:
  "\<exists>evs. trace (snd (update L K ch st)) = trace st @ evs
     \<and> (\<forall>e \<in> set evs. stamp e = 3 * frame st)"
proof -
  let ?st = "emit (Updating (cid ch)) st"
  have up: "stamp (frame st, Updating (cid ch)) = 3 * frame st" by (simp add: stamp_def)
  consider (a) e where "update L K ch st = (Some e, ?st)"
    | (b) hsv0 e where "update L K ch st = (Some e, snd (apply_effect K ch hsv0 ?st))"
    | (c) hsv0 hsv where "update L K ch st = write_out L ch hsv (snd (apply_effect K ch hsv0 ?st))"
    using update_cases [of L ch K st] by blast
  then show ?thesis
  proof cases
    case a
    then show ?thesis using up by simp
  next
    case b
    then show ?thesis using up by simp
  next
    case c
    obtain evs where
      "trace (snd (write_out L ch hsv (snd (apply_effect K ch hsv0 ?st)))) =
         trace (snd (apply_effect K ch hsv0 ?st)) @ evs"
      and "\<forall>e \<in> set evs. stamp e = 3 * frame (snd (apply_effect K ch hsv0 ?st))"
      using write_out_trace by blast
    then show ?thesis using c up
      by (intro exI [of _ "(frame st, Updating (cid ch)) # evs"]) simp
  qed
qed

lemma parse_prefixed_no_result:
  assumes "keyword_hsv L str = None"
  shows "startsWith str ''rgb'' \<Longrightarrow> rgb_hsv L str = None \<Longrightarrow>
           parseColorToHsv L str = Inl (Error (''Unknown color: '' @ str))"
    and "\<not> startsWith str ''rgb'' \<Longrightarrow> startsWith str ''hsv'' \<Longrightarrow> hsv_hsv L str = None \<Longrightarrow>
           parseColorToHsv L str = Inl (Error (''Unknown color: '' @ str))"
    and "\<not> startsWith str ''rgb'' \<Longrightarrow> \<not> startsWith str ''hsv'' \<Longrightarrow> startsWith str ''0x'' \<Longrightarrow>
           hex_hsv L str = None \<Longrightarrow>
           parseColorToHsv L str = Inl (Error (''Unkown color: '' @ str))"
    and "\<not> startsWith str ''rgb'' \<Longrightarrow> \<not> startsWith str ''hsv'' \<Longrightarrow> \<not> startsWith str ''0x'' \<Longrightarrow>
           parseColorToHsv L str = Inr None"
  using assms by (simp_all add: parseColorToHsv_def)

lemma update_undefined_color:
  assumes "parseColorToHsv L (hue (config ch)) = Inr None"
  shows "bufs (snd (update L K ch st)) = bufs st"
    and "trace (snd (update L K ch st)) = trace st @ [(frame st, Updating (cid ch))]
         \<or> trace (snd (update L K ch st)) =
             trace st @ [(frame st, Updating (cid ch)), (frame st, UnhandledType (ctype (config ch)))]"
  using assms
  by (auto simp: update_def apply_effect_def write_out_def Let_def split: option.splits)

lemma update_plain:
  assumes "parseColorToHsv L (hue (config ch)) = Inr (Some x)"
    and "effect (config ch) \<noteq> Some ''candle''"
  shows "ctype (config ch) = ''hsv'' \<Longrightarrow>
           update L K ch st = (None, Channel_set ch (color_list x) (emit (Updating (cid ch)) st))"
    and "ctype (config ch) = ''rgb'' \<Longrightarrow>
           update L K ch st =
             (None, Channel_set ch (color_list (hsv_rgb L x)) (emit (Updating (cid ch)) st))"
  using assms by (simp_all add: update_def apply_effect_def write_out_def)

lemma update_throws:
  "parseColorToHsv L (hue (config ch)) = Inl e \<Longrightarrow>
   update L K ch st = (Some e, emit (Updating (cid ch)) st)"
  by (simp add: update_def)


section \<open>Properties of a tick\<close>

lemma sorted_map_const: "(\<forall>x \<in> set xs. f x = (m::nat)) \<Longrightarrow> sorted (map f xs)"
  by (induction xs) auto

lemma stamped_upto_append:
  assumes "stamped_upto n tr" and "n \<le> m" and "\<forall>e \<in> set evs. stamp e = m"
  shows "stamped_upto m (tr @ evs)"
proof -
  have "sorted (map stamp evs)" using assms(3) by (rule sorted_map_const)
  moreover have "\<forall>x \<in> set tr. \<forall>y \<in> set evs. stamp x \<le> stamp y"
    using assms by (auto simp: stamped_upto_def)
  moreover have "\<forall>e \<in> set (tr @ evs). stamp e \<le> m"
    using assms by (auto simp: stamped_upto_def)
  ultimately show ?thesis
    using assms(1) by (simp add: stamped_upto_def sorted_append)
qed

lemma stamped_upto_mono: "stamped_upto n tr \<Longrightarrow> n \<le> m \<Longrightarrow> stamped_upto m tr"
  by (auto simp: stamped_upto_def)

lemma updates_frame [simp]: "frame (snd (updates L K chs st)) = frame st"
proof (induction chs arbitrary: st)
  case Nil
  then show ?case by simp
next
  case (Cons ch chs)
  obtain r st' where u: "update L K ch st = (r, st')" by (cases "update L K ch st")
  then have "frame st' = frame st" using update_frame [of L K ch st] by simp
  then show ?case using u Cons [of st'] by (cases r) simp_all
qed

lemma updates_trace:
  "\<exists>evs. trace (snd (updates L K chs st)) = trace st @ evs
     \<and> (\<forall>e \<in> set evs. stamp e = 3 * frame st)"
proof (induction chs arbitrary: st)
  case Nil
  then show ?case by simp
next
  case (Cons ch chs)
  obtain r st' where u: "update L K ch st = (r, st')" by (cases "update L K ch st")
  then have fr: "frame st' = frame st" using update_frame [of L K ch st] by simp
  obtain evs where e1: "trace st' = trace st @ evs" "\<forall>e \<in> set evs. stamp e = 3 * frame st"
    using update_trace [of L K ch st] u by auto
  show ?case
  proof (cases r)
    case None
    obtain evs' where "trace (snd (updates L K chs st')) = trace st' @ evs'"
      "\<forall>e \<in> set evs'. stamp e = 3 * frame st'"
      using Cons [of st'] by blast
    then show ?thesis using u None e1 fr
      by (intro exI [of _ "evs @ evs'"]) auto
  next
    case (Some e)
    then show ?thesis using u e1 by simp
  qed
qed

lemma updates_append_error:
  "updates L K pre st = (None, st1) \<Longrightarrow> update L K ch st1 = (Some e, st2) \<Longrightarrow>
   updates L K (pre @ ch # post) st = (Some e, st2)"
proof (induction pre arbitrary: st)
  case Nil
  then show ?case by simp
next
  case (Cons p pre)
  obtain r st' where u: "update L K p st = (r, st')" by (cases "update L K p st")
  show ?case
  proof (cases r)
    case None
    then show ?thesis using u Cons by simp
  next
    case (Some e')
    then show ?thesis using u Cons.prems by simp
  qed
qed

lemma send_simps [simp]:
  "fst (send u st) = None"
  "snd (send u st) = emit (Sending u (bufs st u)) st"
  by (simp_all add: send_def)

lemma sends_ok [simp]: "fst (sends us st) = None"
  by (induction us arbitrary: st) (simp_all add: send_def split: prod.splits)

lemma sends_nil [simp]: "snd (sends [] st) = st"
  by simp

lemma sends_step: "snd (sends (u # us) st) = snd (sends us (emit (Sending u (bufs st u)) st))"
  by (simp add: send_def split: prod.splits)

declare sends.simps [simp del]

lemma sends_frame [simp]: "frame (snd (sends us st)) = frame st"
  by (induction us arbitrary: st) (simp_all add: sends_step)

lemma sends_bufs [simp]: "bufs (snd (sends us st)) = bufs st"
  by (induction us arbitrary: st) (simp_all add: sends_step)

lemma sends_candles [simp]: "candles (snd (sends us st)) = candles st"
  by (induction us arbitrary: st) (simp_all add: sends_step)

lemma sends_trace [simp]:
  "trace (snd (sends us st)) = trace st @ map (\<lambda>u. (frame st, Sending u (bufs st u))) us"
  by (induction us arbitrary: st) (simp_all add: sends_step)

lemma sends_trace_stamps:
  "\<exists>evs. trace (snd (sends us st)) = trace st @ evs
     \<and> (\<forall>e \<in> set evs. stamp e = 3 * frame st + 1)"
  by (auto simp: stamp_def)

section \<open>Properties of the loop\<close>

lemma loop_Suc:
  "loop (Suc fuel) E L K chs nu st =
     (if quit E (frame st) then (Resolved, st)
      else
        let st1 = st\<lparr>frame := frame st + 1\<rparr>;
            st2 = snd (updates L K chs st1);
            st3 = snd (sends [0..<nu] st2);
            wait = start E + (NOMINAL_DELAY * real (frame st + 1)) - now E (frame st + 1)
        in case fst (updates L K chs st1) of
             Some e \<Rightarrow> (Rejected e, st2)
           | None \<Rightarrow>
               if wait \<le> 0 then (Rejected TypeError, emit Overrun st3)
               else loop fuel E L K chs nu (emit (Timeout wait) st3))"
proof (cases "quit E (frame st)")
  case True
  then show ?thesis by simp
next
  case False
  let ?st1 = "st\<lparr>frame := frame st + 1\<rparr>"
  obtain r st2 where u: "updates L K chs ?st1 = (r, st2)" by (cases "updates L K chs ?st1")
  then have f2: "frame st2 = frame st + 1" using updates_frame [of L K chs ?st1] by simp
  obtain r' st3 where s: "sends [0..<nu] st2 = (r', st3)" by (cases "sends [0..<nu] st2")
  then have r': "r' = None" using sends_ok [of "[0..<nu]" st2] by simp
  have f3: "frame st3 = frame st + 1" using s f2 sends_frame [of "[0..<nu]" st2] by simp
  show ?thesis using False u s r' f3 by (cases r) (simp_all add: Let_def)
qed

declare loop.simps(2) [simp del]

lemma loop_quit: "quit E (frame st) \<Longrightarrow> loop (Suc fuel) E L K chs nu st = (Resolved, st)"
  by (simp add: loop_Suc)

lemma loop_tick:
  assumes "\<not> quit E (frame st)"
    and "updates L K chs (st\<lparr>frame := frame st + 1\<rparr>) = (None, st2)"
    and "0 < start E + (NOMINAL_DELAY * real (frame st + 1)) - now E (frame st + 1)"
  shows "loop (Suc fuel) E L K chs nu st =
           loop fuel E L K chs nu
             (emit (Timeout (start E + (NOMINAL_DELAY * real (frame st + 1)) - now E (frame st + 1)))
                (snd (sends [0..<nu] st2)))"
  using assms by (simp add: loop_Suc Let_def)

lemma loop_overrun:
  assumes "\<not> quit E (frame st)"
    and "updates L K chs (st\<lparr>frame := frame st + 1\<rparr>) = (None, st2)"
    and "start E + (NOMINAL_DELAY * real (frame st + 1)) - now E (frame st + 1) \<le> 0"
  shows "loop (Suc fuel) E L K chs nu st = (Rejected TypeError, emit Overrun (snd (sends [0..<nu] st2)))"
  using assms by (simp add: loop_Suc Let_def)

lemma loop_update_error:
  assumes "\<not> quit E (frame st)"
    and "updates L K chs (st\<lparr>frame := frame st + 1\<rparr>) = (Some e, st2)"
  shows "loop (Suc fuel) E L K chs nu st = (Rejected e, st2)"
  using assms by (simp add: loop_Suc Let_def)

lemma loop_stamped:
  "stamped_upto (3 * frame st + 2) (trace st) \<Longrightarrow>
   stamped_upto (3 * frame (snd (loop fuel E L K chs nu st)) + 2)
     (trace (snd (loop fuel E L K chs nu st)))"
proof (induction fuel arbitrary: st)
  case 0
  then show ?case by simp
next
  case (Suc fuel)
  show ?case
  proof (cases "quit E (frame st)")
    case True
    then show ?thesis using Suc.prems by (simp add: loop_quit)
  next
    case False
    let ?st1 = "st\<lparr>frame := frame st + 1\<rparr>"
    let ?st2 = "snd (updates L K chs ?st1)"
    let ?st3 = "snd (sends [0..<nu] ?st2)"
    let ?k = "frame st + 1"
    let ?wait = "start E + (NOMINAL_DELAY * real ?k) - now E ?k"
    have f2: "frame ?st2 = ?k" by simp
    obtain evs where e2: "trace ?st2 = trace st @ evs" "\<forall>e \<in> set evs. stamp e = 3 * ?k"
      using updates_trace [of L K chs ?st1] by auto
    have s2: "stamped_upto (3 * ?k) (trace ?st2)"
      unfolding e2(1) by (rule stamped_upto_append [OF Suc.prems _ e2(2)]) simp
    obtain evs' where e3: "trace ?st3 = trace ?st2 @ evs'" "\<forall>e \<in> set evs'. stamp e = 3 * ?k + 1"
      using sends_trace_stamps [of "[0..<nu]" ?st2] f2 by auto
    have s3: "stamped_upto (3 * ?k + 1) (trace ?st3)"
      unfolding e3(1) by (rule stamped_upto_append [OF s2 _ e3(2)]) simp
    show ?thesis
    proof (cases "fst (updates L K chs ?st1)")
      case (Some e)
      then show ?thesis using False stamped_upto_mono [OF s2, of "3 * ?k + 2"]
        by (simp add: loop_Suc Let_def)
    next
      case None
      show ?thesis
      proof (cases "?wait \<le> 0")
        case True
        have "stamped_upto (3 * ?k + 2) (trace ?st3 @ [(?k, Overrun)])"
          by (rule stamped_upto_append [OF s3]) (simp_all add: stamp_def)
        then show ?thesis using False None True
          by (simp add: loop_Suc Let_def)
      next
        case w: False
        let ?st4 = "emit (Timeout ?wait) ?st3"
        have "stamped_upto (3 * ?k + 2) (trace ?st3 @ [(?k, Timeout ?wait)])"
          by (rule stamped_upto_append [OF s3]) (simp_all add: stamp_def)
        then have "stamped_upto (3 * frame ?st4 + 2) (trace ?st4)" by simp
        then have "stamped_upto (3 * frame (snd (loop fuel E L K chs nu ?st4)) + 2)
                     (trace (snd (loop fuel E L K chs nu ?st4)))"
          by (rule Suc.IH)
        then show ?thesis using False None w
          by (simp add: loop_Suc Let_def)
      qed
    qed
  qed
qed

lemma main_sorted: "sorted (map stamp (trace (snd (main U E L K us cs fuel))))"
proof (cases "universes_new U us")
  case (Some e)
  then show ?thesis by (simp add: main_def init_state_def)
next
  case None
  show ?thesis
  proof (cases "wire us 0 cs")
    case (Inl e)
    then show ?thesis using None by (simp add: main_def init_state_def)
  next
    case (Inr chs)
    have "stamped_upto (3 * frame (init_state us :: 'a state) + 2) (trace (init_state us :: 'a state))"
      by (simp add: init_state_def stamped_upto_def)
    from loop_stamped [OF this] show ?thesis using None Inr
      by (simp add: main_def stamped_upto_def)
  qed
qed

lemma loop_frame_mono: "frame st \<le> frame (snd (loop fuel E L K chs nu st))"
proof (induction fuel arbitrary: st)
  case 0
  then show ?case by simp
next
  case (Suc fuel)
  let ?st1 = "st\<lparr>frame := frame st + 1\<rparr>"
  let ?st3 = "snd (sends [0..<nu] (snd (updates L K chs ?st1)))"
  let ?wait = "start E + (NOMINAL_DELAY * real (frame st + 1)) - now E (frame st + 1)"
  have "frame st \<le> frame (snd (loop fuel E L K chs nu (emit (Timeout ?wait) ?st3)))"
    using Suc [of "emit (Timeout ?wait) ?st3"] by simp
  then show ?case
    by (simp add: loop_Suc Let_def split: option.splits)
qed

lemma loop_starts:
  "\<not> quit E (frame st) \<Longrightarrow> frame st < frame (snd (loop (Suc fuel) E L K chs nu st))"
proof -
  assume nq: "\<not> quit E (frame st)"
  let ?st1 = "st\<lparr>frame := frame st + 1\<rparr>"
  let ?st3 = "snd (sends [0..<nu] (snd (updates L K chs ?st1)))"
  let ?wait = "start E + (NOMINAL_DELAY * real (frame st + 1)) - now E (frame st + 1)"
  have "frame (emit (Timeout ?wait) ?st3) \<le> frame (snd (loop fuel E L K chs nu (emit (Timeout ?wait) ?st3)))"
    by (rule loop_frame_mono)
  then have "frame st < frame (snd (loop fuel E L K chs nu (emit (Timeout ?wait) ?st3)))"
    by simp
  then show ?thesis using nq
    by (simp add: loop_Suc Let_def split: option.splits)
qed


section \<open>Properties of the candle effect and of startup\<close>

lemma update_candle:
  assumes "effect (config ch) = Some ''candle''"
    and "candle (config ch) = Some f"
    and "parseColorToHsv L (hue (config ch)) = Inr (Some (h, s, v))"
  shows "update L K ch st =
           write_out L ch
             (Some (h, s,
                (Candle_flame K (Candle_update K
                   (case candles st (cid ch) of None \<Rightarrow> Candle_new K f | Some cd \<Rightarrow> cd)) / 255)
                  * snd (level f) + fst (level f)))
             ((emit (Updating (cid ch)) st)
                \<lparr>candles := (candles st)(cid ch :=
                   Some (Candle_update K
                     (case candles st (cid ch) of None \<Rightarrow> Candle_new K f | Some cd \<Rightarrow> cd)))\<rparr>)"
  using assms by (simp add: update_def apply_effect_def Let_def)

lemma update_candle_state:
  assumes "effect (config ch) = Some ''candle''"
    and "candle (config ch) = Some f"
    and "parseColorToHsv L (hue (config ch)) = Inr (Some (h, s, v))"
  shows "candles (snd (update L K ch st)) (cid ch) =
           Some (Candle_update K
             (case candles st (cid ch) of None \<Rightarrow> Candle_new K f | Some cd \<Rightarrow> cd))"
  by (simp add: update_candle [OF assms])

lemma update_n_candle:
  assumes "effect (config ch) = Some ''candle''"
    and "candle (config ch) = Some f"
    and "parseColorToHsv L (hue (config ch)) = Inr (Some (h, s, v))"
  shows "candles (update_n (Suc n) L K ch st) (cid ch) =
           Some ((Candle_update K ^^ Suc n)
             (case candles st (cid ch) of None \<Rightarrow> Candle_new K f | Some cd \<Rightarrow> cd))"
proof (induction n arbitrary: st)
  case 0
  show ?case by (simp add: update_candle_state [OF assms])
next
  case (Suc n)
  let ?st' = "snd (update L K ch st)"
  let ?c = "case candles st (cid ch) of None \<Rightarrow> Candle_new K f | Some cd \<Rightarrow> cd"
  have c': "candles ?st' (cid ch) = Some (Candle_update K ?c)"
    by (rule update_candle_state [OF assms])
  have "candles (update_n (Suc (Suc n)) L K ch st) (cid ch) =
          candles (update_n (Suc n) L K ch ?st') (cid ch)"
    by simp
  also have "\<dots> = Some ((Candle_update K ^^ Suc n) (Candle_update K ?c))"
    using Suc [of ?st'] c' by simp
  also have "(Candle_update K ^^ Suc n) (Candle_update K ?c) = (Candle_update K ^^ Suc (Suc n)) ?c"
    by (simp add: funpow_swap1)
  finally show ?case .
qed

lemma find_universe_None: "find_universe us n = None \<longleftrightarrow> n \<notin> name ` set us"
  by (induction us) auto

lemma find_universe_Some:
  "find_universe us n = Some i \<Longrightarrow> i < length us \<and> name (us ! i) = n"
proof (induction us arbitrary: i)
  case Nil
  then show ?case by simp
next
  case (Cons u us)
  then show ?case by (cases "name u = n") auto
qed

lemma wire_ok: "\<forall>c \<in> set cs. universe c \<in> name ` set us \<Longrightarrow> wire us j cs = Inr (wired us j cs)"
proof (induction cs arbitrary: j)
  case Nil
  then show ?case by simp
next
  case (Cons c cs)
  then have "find_universe us (universe c) \<noteq> None" by (simp add: find_universe_None)
  then obtain u where "find_universe us (universe c) = Some u" by auto
  then show ?case using Cons by simp
qed

lemma wire_fail:
  "\<exists>c \<in> set cs. universe c \<notin> name ` set us \<Longrightarrow> wire us j cs = Inl (Error ''No matching universe'')"
proof (induction cs arbitrary: j)
  case Nil
  then show ?case by simp
next
  case (Cons c cs)
  show ?case
  proof (cases "find_universe us (universe c)")
    case None
    then show ?thesis by simp
  next
    case (Some u)
    then have "universe c \<in> name ` set us" using find_universe_None [of us "universe c"] by auto
    then have "\<exists>c \<in> set cs. universe c \<notin> name ` set us" using Cons.prems by auto
    then show ?thesis using Some Cons.IH by simp
  qed
qed

lemma wired_length:
  "\<forall>c \<in> set cs. universe c \<in> name ` set us \<Longrightarrow> length (wired us j cs) = length cs"
proof (induction cs arbitrary: j)
  case Nil
  then show ?case by simp
next
  case (Cons c cs)
  then have "find_universe us (universe c) \<noteq> None" by (simp add: find_universe_None)
  then obtain u where "find_universe us (universe c) = Some u" by auto
  then show ?case using Cons by simp
qed

lemma wired_resolved:
  "\<forall>c \<in> set cs. universe c \<in> name ` set us \<Longrightarrow>
   \<forall>ch \<in> set (wired us j cs). univ ch < length us \<and> name (us ! univ ch) = universe (config ch)"
proof (induction cs arbitrary: j)
  case Nil
  then show ?case by simp
next
  case (Cons c cs)
  then have "find_universe us (universe c) \<noteq> None" by (simp add: find_universe_None)
  then obtain u where u: "find_universe us (universe c) = Some u" by auto
  show ?case using Cons u find_universe_Some [OF u] by simp
qed

section \<open>The example inputs evaluated\<close>

lemma ex_state_simps:
  "bufs ex_state 0 = [0, 0, 0, 0, 0, 0]"
  "candles ex_state = (\<lambda>j. None)"
  "frame ex_state = 0"
  "trace ex_state = []"
  by (simp_all add: ex_state_def init_state_def ex_universe_def numeral_eq_Suc)

lemma ex_channel_simps:
  "cid (ex_channel j off t h) = j"
  "univ (ex_channel j off t h) = 0"
  "channel (config (ex_channel j off t h)) = off"
  "ctype (config (ex_channel j off t h)) = t"
  "hue (config (ex_channel j off t h)) = h"
  "effect (config (ex_channel j off t h)) = None"
  "universe (config (ex_channel j off t h)) = ''stage''"
  by (simp_all add: ex_channel_def ex_config_def)

lemma ex_parse:
  "parseColorToHsv ex_lib ''red'' = Inr (Some (0, 100, 100))"
  "parseColorToHsv ex_lib ''peru'' = Inr (Some (30, 69, 80))"
  "parseColorToHsv ex_lib ''rgb-bad'' = Inl (Error ''Unknown color: rgb-bad'')"
  "parseColorToHsv ex_lib ''not-a-color'' = Inr None"
  by (simp_all add: parseColorToHsv_def ex_lib_def startsWith_def)

lemma ex_hsv_rgb: "hsv_rgb ex_lib (30, 69, 80) = (204, 134, 63)"
  by (simp add: ex_lib_def)

lemma ex_update_peru:
  "update ex_lib ex_candle (ex_channel j off ''rgb'' ''peru'') st =
     (None, Channel_set (ex_channel j off ''rgb'' ''peru'') [204, 134, 63] (emit (Updating j) st))"
  by (simp add: update_plain(2) ex_parse ex_channel_simps ex_hsv_rgb color_list_def)

lemma ex_update_bad:
  "update ex_lib ex_candle (ex_channel j off ''rgb'' ''rgb-bad'') st =
     (Some (Error ''Unknown color: rgb-bad''), emit (Updating j) st)"
  by (simp add: update_throws ex_parse ex_channel_simps)

lemma ex_new:
  "universes_new ex_e131 [ex_universe] = None"
  "universes_new ex_e131 [ex_universe_empty] = Some RangeError"
  by (simp_all add: ex_e131_def ex_universe_def ex_universe_empty_def)

lemma ex_wire:
  "wire [ex_universe] 0 [ex_config 0 ''rgb'' ''peru''] = Inr [ex_channel 0 0 ''rgb'' ''peru'']"
  by (simp add: ex_universe_def ex_config_def ex_channel_def)

lemma ex_run:
  "fst (main ex_e131 ex_env ex_lib ex_candle [ex_universe] [ex_config 0 ''rgb'' ''peru''] 5) = Resolved"
  "frame (snd (main ex_e131 ex_env ex_lib ex_candle [ex_universe] [ex_config 0 ''rgb'' ''peru''] 5)) = 2"
  "trace (snd (main ex_e131 ex_env ex_lib ex_candle [ex_universe] [ex_config 0 ''rgb'' ''peru''] 5)) =
     [(1, Updating 0), (1, Store 0 0 204), (1, Store 0 1 134), (1, Store 0 2 63),
      (1, Sending 0 [204, 134, 63, 0, 0, 0]), (1, Timeout (10 / 3)),
      (2, Updating 0), (2, Store 0 0 204), (2, Store 0 1 134), (2, Store 0 2 63),
      (2, Sending 0 [204, 134, 63, 0, 0, 0]), (2, Timeout (20 / 3))]"
proof -
  let ?ch = "ex_channel 0 0 ''rgb'' ''peru''"
  let ?loop = "\<lambda>n. loop n ex_env ex_lib ex_candle [?ch] (Suc 0)"
  define a1 :: "nat state" where
    "a1 = Channel_set ?ch [204, 134, 63] (emit (Updating 0) (ex_state\<lparr>frame := Suc 0\<rparr>))"
  define s1 :: "nat state" where
    "s1 = emit (Timeout (10 / 3)) (snd (sends [0..<Suc 0] a1))"
  define a2 :: "nat state" where
    "a2 = Channel_set ?ch [204, 134, 63] (emit (Updating 0) (s1\<lparr>frame := Suc (Suc 0)\<rparr>))"
  define s2 :: "nat state" where
    "s2 = emit (Timeout (20 / 3)) (snd (sends [0..<Suc 0] a2))"
  have b1: "bufs a1 0 = [204, 134, 63, 0, 0, 0]"
    using Channel_set_simps(4) [of ?ch "[204, 134, 63]" "emit (Updating 0) (ex_state\<lparr>frame := Suc 0\<rparr>)"]
    by (simp add: a1_def ex_channel_simps ex_state_simps upt_conv_Cons)
  have f1: "frame s1 = Suc 0" by (simp add: s1_def a1_def)
  have t1: "trace s1 = [(1, Updating 0), (1, Store 0 0 204), (1, Store 0 1 134), (1, Store 0 2 63),
      (1, Sending 0 [204, 134, 63, 0, 0, 0]), (1, Timeout (10 / 3))]"
    by (simp add: s1_def b1) (simp add: a1_def ex_channel_simps ex_state_simps upt_conv_Cons)
  have b2: "bufs a2 0 = [204, 134, 63, 0, 0, 0]"
    using Channel_set_simps(4) [of ?ch "[204, 134, 63]" "emit (Updating 0) (s1\<lparr>frame := Suc (Suc 0)\<rparr>)"]
    by (simp add: a2_def ex_channel_simps s1_def b1 upt_conv_Cons)
  have f2: "frame s2 = Suc (Suc 0)" by (simp add: s2_def a2_def)
  have t2: "trace s2 = trace s1 @ [(2, Updating 0), (2, Store 0 0 204), (2, Store 0 1 134), (2, Store 0 2 63),
      (2, Sending 0 [204, 134, 63, 0, 0, 0]), (2, Timeout (20 / 3))]"
    by (simp add: s2_def b2) (simp add: a2_def ex_channel_simps upt_conv_Cons)
  have "?loop (Suc (Suc (Suc (Suc (Suc 0))))) ex_state = ?loop (Suc (Suc (Suc (Suc 0)))) s1"
    by (subst loop_tick [where ?st2.0 = a1])
       (simp_all add: ex_env_def ex_state_simps ex_update_peru NOMINAL_DELAY_def RATE_def s1_def a1_def)
  also have "\<dots> = ?loop (Suc (Suc (Suc 0))) s2"
    by (subst loop_tick [where ?st2.0 = a2])
       (simp_all add: ex_env_def f1 ex_update_peru NOMINAL_DELAY_def RATE_def s2_def a2_def)
  also have "\<dots> = (Resolved, s2)"
    by (rule loop_quit) (simp add: f2 ex_env_def)
  finally have "?loop 5 ex_state = (Resolved, s2)" by (simp add: eval_nat_numeral)
  then have m: "main ex_e131 ex_env ex_lib ex_candle [ex_universe] [ex_config 0 ''rgb'' ''peru''] 5 = (Resolved, s2)"
    unfolding main_def ex_new ex_wire ex_state_def [symmetric] by simp
  show "fst (main ex_e131 ex_env ex_lib ex_candle [ex_universe] [ex_config 0 ''rgb'' ''peru''] 5) = Resolved"
    by (simp add: m)
  show "frame (snd (main ex_e131 ex_env ex_lib ex_candle [ex_universe] [ex_config 0 ''rgb'' ''peru''] 5)) = 2"
    by (simp add: m f2)
  show "trace (snd (main ex_e131 ex_env ex_lib ex_candle [ex_universe] [ex_config 0 ''rgb'' ''peru''] 5)) =
     [(1, Updating 0), (1, Store 0 0 204), (1, Store 0 1 134), (1, Store 0 2 63),
      (1, Sending 0 [204, 134, 63, 0, 0, 0]), (1, Timeout (10 / 3)),
      (2, Updating 0), (2, Store 0 0 204), (2, Store 0 1 134), (2, Store 0 2 63),
      (2, Sending 0 [204, 134, 63, 0, 0, 0]), (2, Timeout (20 / 3))]"
    by (simp add: m t2 t1)
qed

lemma ex_b0 [simp]: "bufs (Channel_set (ex_channel j off t h) d st) 0 =
     map (\<lambda>i. if off \<le> i \<and> i < length d then to_uint8 (d ! i) else bufs st 0 ! i) [0..<length (bufs st 0)]"
  using Channel_set_simps(4) [of "ex_channel j off t h" d st] by (simp add: ex_channel_simps)

lemma ex_flicker_simps:
  "cid ex_flicker = 0"
  "univ ex_flicker = 0"
  "channel (config ex_flicker) = 0"
  "ctype (config ex_flicker) = ''hsv''"
  "hue (config ex_flicker) = ''red''"
  "effect (config ex_flicker) = Some ''candle''"
  "candle (config ex_flicker) = Some \<lparr>level = (50, 100)\<rparr>"
  by (simp_all add: ex_flicker_def)

section \<open>The claims\<close>

text \<open>
  C1. Claim: for a Channel with offset \<open>o\<close> in a Universe of \<open>N\<close> channels, one
  \<open>update()\<close> writes the three color components at positions \<open>o\<close>, \<open>o+1\<close>, \<open>o+2\<close>
  (\<open>buffer[o+i] = color[i]\<close>). The code does not: with offset 1 in a universe of six
  channels and the color (204, 134, 63) it stores \<open>color[1]\<close> at position 1 and \<open>color[2]\<close>
  at position 2 and nothing else, so the buffer is [0, 134, 63, 0, 0, 0] where the claim
  requires [0, 204, 134, 63, 0, 0].
\<close>

theorem update_offset_1_misplaces_color:
  "fst (update ex_lib ex_candle (ex_channel 0 1 ''rgb'' ''peru'') ex_state) = None
   \<and> filter (is_store \<circ> snd) (trace (snd (update ex_lib ex_candle (ex_channel 0 1 ''rgb'' ''peru'') ex_state))) =
       [(0, Store 0 1 134), (0, Store 0 2 63)]
   \<and> bufs (snd (update ex_lib ex_candle (ex_channel 0 1 ''rgb'' ''peru'') ex_state)) 0 =
       [0, 134, 63, 0, 0, 0]"
  by (simp add: ex_update_peru ex_channel_simps ex_state_simps upt_conv_Cons)

text \<open>
  C2. Claim: in a tick whose wait is at most 0 the overrun is reported, the next tick is
  scheduled with wait 0 and the loop goes on. The code reports the overrun and then assigns
  to the constant \<open>wait\<close>, which throws: with a clock on which each frame takes 40 ms the
  first tick ends the loop, whatever the fuel; no timer is set and the frame counter
  stays at 1.
\<close>

theorem overrun_ends_loop:
  "fst (main ex_e131 ex_env_late ex_lib ex_candle [ex_universe] [ex_config 0 ''rgb'' ''peru''] 5) = Rejected TypeError
   \<and> frame (snd (main ex_e131 ex_env_late ex_lib ex_candle [ex_universe] [ex_config 0 ''rgb'' ''peru''] 5)) = 1
   \<and> trace (snd (main ex_e131 ex_env_late ex_lib ex_candle [ex_universe] [ex_config 0 ''rgb'' ''peru''] 5)) =
       [(1, Updating 0), (1, Store 0 0 204), (1, Store 0 1 134), (1, Store 0 2 63),
        (1, Sending 0 [204, 134, 63, 0, 0, 0]), (1, Overrun)]"
proof -
  let ?ch = "ex_channel 0 0 ''rgb'' ''peru''"
  define a1 :: "nat state" where
    "a1 = Channel_set ?ch [204, 134, 63] (emit (Updating 0) (ex_state\<lparr>frame := Suc 0\<rparr>))"
  have b1: "bufs a1 0 = [204, 134, 63, 0, 0, 0]"
    by (simp add: a1_def ex_state_simps upt_conv_Cons)
  have "loop (Suc (Suc (Suc (Suc (Suc 0))))) ex_env_late ex_lib ex_candle [?ch] (Suc 0) ex_state =
          (Rejected TypeError, emit Overrun (snd (sends [0..<Suc 0] a1)))"
    by (rule loop_overrun)
       (simp_all add: ex_env_late_def ex_state_simps ex_update_peru NOMINAL_DELAY_def RATE_def a1_def)
  then have "loop 5 ex_env_late ex_lib ex_candle [?ch] (Suc 0) ex_state =
          (Rejected TypeError, emit Overrun (snd (sends [0..<Suc 0] a1)))"
    by (simp add: eval_nat_numeral)
  then have m: "main ex_e131 ex_env_late ex_lib ex_candle [ex_universe] [ex_config 0 ''rgb'' ''peru''] 5 =
          (Rejected TypeError, emit Overrun (snd (sends [0..<Suc 0] a1)))"
    unfolding main_def ex_new ex_wire ex_state_def [symmetric] by simp
  show ?thesis
    by (simp add: m b1) (simp add: a1_def ex_channel_simps ex_state_simps upt_conv_Cons)
qed

text \<open>
  C3. Claim: a string that is no keyword and whose conversion yields no result, such as
  \<open>not-a-color\<close>, makes the parser fail with an error naming the string. The code throws
  only inside the three prefix branches; \<open>not-a-color\<close> has none of the prefixes, so the
  parser returns \<open>undefined\<close>. The update that uses it then fails with a TypeError, still
  before any store.
\<close>

theorem parse_without_prefix_returns_undefined:
  "parseColorToHsv ex_lib ''not-a-color'' = Inr None
   \<and> update ex_lib ex_candle (ex_channel 0 0 ''rgb'' ''not-a-color'') ex_state =
       (Some TypeError, emit (Updating 0) ex_state)"
  by (simp add: ex_parse update_def apply_effect_def write_out_def ex_channel_simps)

text \<open>
  C4. Claim: \<open>send()\<close> transmits the buffer and reports a transport failure to its caller.
  The code logs the buffer and returns a resolved promise; the transmission after that
  return is never reached, so no packet is handed to the transport and \<open>send()\<close> succeeds
  also where the transport would have failed.
\<close>

theorem send_resolves_without_transmitting:
  "fst (send u st) = None
   \<and> filter (is_transmit \<circ> snd) (trace (snd (send u st))) = filter (is_transmit \<circ> snd) (trace st)
   \<and> fst (send_unreachable ex_transport_down u st) = Some (Error ''EHOSTUNREACH'')"
  by (simp add: send_unreachable_def ex_transport_down_def)

text \<open>
  C5. Claim: an error raised during one Channel's update does not prevent the updates of
  the other Channels in that tick. It does: with a first channel whose color does not
  parse and a second channel that is fine, the second channel's update is never entered
  and the buffer stays as it was, although that channel alone writes its color.
\<close>

theorem update_error_skips_later_channels:
  "fst (updates ex_lib ex_candle
          [ex_channel 0 3 ''rgb'' ''rgb-bad'', ex_channel 1 0 ''rgb'' ''peru''] ex_state) =
     Some (Error ''Unknown color: rgb-bad'')
   \<and> trace (snd (updates ex_lib ex_candle
          [ex_channel 0 3 ''rgb'' ''rgb-bad'', ex_channel 1 0 ''rgb'' ''peru''] ex_state)) =
       [(0, Updating 0)]
   \<and> bufs (snd (updates ex_lib ex_candle
          [ex_channel 0 3 ''rgb'' ''rgb-bad'', ex_channel 1 0 ''rgb'' ''peru''] ex_state)) 0 =
       [0, 0, 0, 0, 0, 0]
   \<and> bufs (snd (updates ex_lib ex_candle [ex_channel 1 0 ''rgb'' ''peru''] ex_state)) 0 =
       [204, 134, 63, 0, 0, 0]"
  by (simp add: ex_update_peru ex_update_bad ex_state_simps upt_conv_Cons)

text \<open>
  C5 as amended: an error thrown by one Channel's update ends the tick there. The channels
  before it in the configured order have been updated, and the state the loop's promise
  is rejected with is the state right after the failing update: no later channel is
  updated, no universe is sent and no next tick is scheduled.
\<close>

theorem update_error_ends_tick:
  "\<not> quit E (frame st) \<Longrightarrow>
   updates L K pre (st\<lparr>frame := frame st + 1\<rparr>) = (None, st1) \<Longrightarrow>
   update L K ch st1 = (Some e, st2) \<Longrightarrow>
   loop (Suc fuel) E L K (pre @ ch # post) nu st = (Rejected e, st2)"
  by (rule loop_update_error) (simp_all add: updates_append_error)

theorem update_error_ends_tick_witness:
  "\<not> quit ex_env (frame ex_state)
   \<and> updates ex_lib ex_candle [ex_channel 0 0 ''rgb'' ''peru''] (ex_state\<lparr>frame := frame ex_state + 1\<rparr>) =
       (None, Channel_set (ex_channel 0 0 ''rgb'' ''peru'') [204, 134, 63]
                (emit (Updating 0) (ex_state\<lparr>frame := frame ex_state + 1\<rparr>)))
   \<and> update ex_lib ex_candle (ex_channel 1 3 ''rgb'' ''rgb-bad'')
         (Channel_set (ex_channel 0 0 ''rgb'' ''peru'') [204, 134, 63]
            (emit (Updating 0) (ex_state\<lparr>frame := frame ex_state + 1\<rparr>))) =
       (Some (Error ''Unknown color: rgb-bad''),
        emit (Updating 1) (Channel_set (ex_channel 0 0 ''rgb'' ''peru'') [204, 134, 63]
            (emit (Updating 0) (ex_state\<lparr>frame := frame ex_state + 1\<rparr>))))
   \<and> loop (Suc 4) ex_env ex_lib ex_candle
        ([ex_channel 0 0 ''rgb'' ''peru''] @ ex_channel 1 3 ''rgb'' ''rgb-bad'' #
           [ex_channel 2 0 ''rgb'' ''red'']) 1 ex_state =
       (Rejected (Error ''Unknown color: rgb-bad''),
        emit (Updating 1) (Channel_set (ex_channel 0 0 ''rgb'' ''peru'') [204, 134, 63]
            (emit (Updating 0) (ex_state\<lparr>frame := frame ex_state + 1\<rparr>))))"
proof -
  let ?a = "Channel_set (ex_channel 0 0 ''rgb'' ''peru'') [204, 134, 63]
            (emit (Updating 0) (ex_state\<lparr>frame := frame ex_state + 1\<rparr>))"
  have q: "\<not> quit ex_env (frame ex_state)" by (simp add: ex_env_def ex_state_simps)
  have u: "updates ex_lib ex_candle [ex_channel 0 0 ''rgb'' ''peru''] (ex_state\<lparr>frame := frame ex_state + 1\<rparr>) =
       (None, ?a)"
    by (simp add: ex_update_peru)
  have b: "update ex_lib ex_candle (ex_channel 1 3 ''rgb'' ''rgb-bad'') ?a =
       (Some (Error ''Unknown color: rgb-bad''), emit (Updating 1) ?a)"
    by (simp add: ex_update_bad)
  show ?thesis
    using q u b update_error_ends_tick [OF q u b, of 4 "[ex_channel 2 0 ''rgb'' ''red'']" 1]
    by simp
qed

text \<open>
  C6. For every Channel whose offset is 3 or more, \<open>update()\<close> writes nothing into the
  frame buffers, whatever the color library, the hue, the encoding and the effect: no
  store is executed and every buffer is as before.
\<close>

theorem update_offset_ge_3_writes_nothing:
  "3 \<le> channel (config ch) \<Longrightarrow>
   bufs (snd (update L K ch st)) = bufs st
   \<and> filter (is_store \<circ> snd) (trace (snd (update L K ch st))) = filter (is_store \<circ> snd) (trace st)"
proof -
  assume off: "3 \<le> channel (config ch)"
  let ?st = "emit (Updating (cid ch)) st"
  show ?thesis
  proof (cases "parseColorToHsv L (hue (config ch))")
    case (Inl e)
    then show ?thesis by (simp add: update_def)
  next
    case (Inr hsv0)
    obtain r st1 where ae: "apply_effect K ch hsv0 ?st = (r, st1)"
      by (cases "apply_effect K ch hsv0 ?st")
    have st1: "bufs st1 = bufs st" "trace st1 = trace ?st"
      using apply_effect_keeps [of K ch hsv0 ?st] ae by simp_all
    show ?thesis
    proof (cases r)
      case (Inl e)
      then show ?thesis using Inr ae st1 by (simp add: update_def)
    next
      case (Inr hsv)
      then show ?thesis
        using \<open>parseColorToHsv L (hue (config ch)) = Inr hsv0\<close> ae st1
          write_out_past_end [OF off, of L hsv st1]
        by (simp add: update_def)
    qed
  qed
qed


theorem update_offset_ge_3_writes_nothing_witness:
  "3 \<le> channel (config (ex_channel 0 3 ''hsv'' ''red''))
   \<and> bufs (snd (update ex_lib ex_candle (ex_channel 0 3 ''hsv'' ''red'') ex_state)) 0 = [0, 0, 0, 0, 0, 0]
   \<and> filter (is_store \<circ> snd) (trace (snd (update ex_lib ex_candle (ex_channel 0 3 ''hsv'' ''red'') ex_state))) = []"
  using update_offset_ge_3_writes_nothing [of "ex_channel 0 3 ''hsv'' ''red''" ex_lib ex_candle ex_state]
  by (simp add: ex_state_simps ex_channel_simps)


text \<open>
  C7. In the trace of any run, an earlier entry never belongs to a later tick than a later
  entry, and within one tick never to a later phase: every update event of a tick comes
  before every send event of that tick, and every event of tick \<open>N\<close> before every event of
  tick \<open>N+1\<close>.
\<close>

theorem ticks_never_overlap:
  "i < j \<Longrightarrow> j < length (trace (snd (main U E L K us cs fuel))) \<Longrightarrow>
   fst (trace (snd (main U E L K us cs fuel)) ! i) < fst (trace (snd (main U E L K us cs fuel)) ! j)
   \<or> (fst (trace (snd (main U E L K us cs fuel)) ! i) = fst (trace (snd (main U E L K us cs fuel)) ! j)
      \<and> phase (snd (trace (snd (main U E L K us cs fuel)) ! i))
          \<le> phase (snd (trace (snd (main U E L K us cs fuel)) ! j)))"
proof -
  assume ij: "i < j" "j < length (trace (snd (main U E L K us cs fuel)))"
  let ?tr = "trace (snd (main U E L K us cs fuel))"
  have "sorted (map stamp ?tr)" by (rule main_sorted)
  then have "map stamp ?tr ! i \<le> map stamp ?tr ! j"
    using ij by (intro sorted_nth_mono) simp_all
  then have le: "3 * fst (?tr ! i) + phase (snd (?tr ! i)) \<le> 3 * fst (?tr ! j) + phase (snd (?tr ! j))"
    using ij by (simp add: stamp_def)
  have p: "phase ev \<le> 2" for ev by (cases ev) simp_all
  show ?thesis using le p [of "snd (?tr ! i)"] p [of "snd (?tr ! j)"] by arith
qed

theorem ticks_never_overlap_witness:
  "(4::nat) < 6
   \<and> 6 < length (trace (snd (main ex_e131 ex_env ex_lib ex_candle [ex_universe] [ex_config 0 ''rgb'' ''peru''] 5)))
   \<and> trace (snd (main ex_e131 ex_env ex_lib ex_candle [ex_universe] [ex_config 0 ''rgb'' ''peru''] 5)) ! 4 =
       (1, Sending 0 [204, 134, 63, 0, 0, 0])
   \<and> trace (snd (main ex_e131 ex_env ex_lib ex_candle [ex_universe] [ex_config 0 ''rgb'' ''peru''] 5)) ! 6 =
       (2, Updating 0)
   \<and> (fst (trace (snd (main ex_e131 ex_env ex_lib ex_candle [ex_universe] [ex_config 0 ''rgb'' ''peru''] 5)) ! 4)
        < fst (trace (snd (main ex_e131 ex_env ex_lib ex_candle [ex_universe] [ex_config 0 ''rgb'' ''peru''] 5)) ! 6)
      \<or> (fst (trace (snd (main ex_e131 ex_env ex_lib ex_candle [ex_universe] [ex_config 0 ''rgb'' ''peru''] 5)) ! 4)
            = fst (trace (snd (main ex_e131 ex_env ex_lib ex_candle [ex_universe] [ex_config 0 ''rgb'' ''peru''] 5)) ! 6)
          \<and> phase (snd (trace (snd (main ex_e131 ex_env ex_lib ex_candle [ex_universe] [ex_config 0 ''rgb'' ''peru''] 5)) ! 4))
              \<le> phase (snd (trace (snd (main ex_e131 ex_env ex_lib ex_candle [ex_universe] [ex_config 0 ''rgb'' ''peru''] 5)) ! 6))))"
proof -
  have h1: "(4::nat) < 6" by simp
  have h2: "6 < length (trace (snd (main ex_e131 ex_env ex_lib ex_candle [ex_universe] [ex_config 0 ''rgb'' ''peru''] 5)))"
    by (simp add: ex_run)
  show ?thesis
    using h1 h2 ticks_never_overlap [OF h1 h2] by (simp add: ex_run)
qed

text \<open>
  C8. For a Channel that declares the candle effect with \<open>level = [base, amplitude]\<close> and
  whose hue parses to a color \<open>(h, s, v)\<close>: after \<open>n + 1\<close> updates the channel's simulator
  is the one created at the first update (or the one already there), advanced \<open>n + 1\<close>
  times; and each update writes out the color \<open>(h, s, base + (flame / 255) * amplitude)\<close>,
  where \<open>flame\<close> is the intensity of the simulator after this update's step.
\<close>

theorem candle_effect:
  assumes "effect (config ch) = Some ''candle''"
    and "candle (config ch) = Some f"
    and "level f = (base, amplitude)"
    and "parseColorToHsv L (hue (config ch)) = Inr (Some (h, s, v))"
  shows "candles (update_n (Suc n) L K ch st) (cid ch) =
           Some ((Candle_update K ^^ Suc n)
             (case candles st (cid ch) of None \<Rightarrow> Candle_new K f | Some cd \<Rightarrow> cd))
         \<and> update L K ch st =
             write_out L ch
               (Some (h, s,
                  base + (Candle_flame K (Candle_update K
                     (case candles st (cid ch) of None \<Rightarrow> Candle_new K f | Some cd \<Rightarrow> cd)) / 255)
                    * amplitude))
               ((emit (Updating (cid ch)) st)
                  \<lparr>candles := (candles st)(cid ch :=
                     Some (Candle_update K
                       (case candles st (cid ch) of None \<Rightarrow> Candle_new K f | Some cd \<Rightarrow> cd)))\<rparr>)"
proof (intro conjI)
  show "candles (update_n (Suc n) L K ch st) (cid ch) =
           Some ((Candle_update K ^^ Suc n)
             (case candles st (cid ch) of None \<Rightarrow> Candle_new K f | Some cd \<Rightarrow> cd))"
    by (rule update_n_candle [OF assms(1,2,4)])
  show "update L K ch st =
             write_out L ch
               (Some (h, s,
                  base + (Candle_flame K (Candle_update K
                     (case candles st (cid ch) of None \<Rightarrow> Candle_new K f | Some cd \<Rightarrow> cd)) / 255)
                    * amplitude))
               ((emit (Updating (cid ch)) st)
                  \<lparr>candles := (candles st)(cid ch :=
                     Some (Candle_update K
                       (case candles st (cid ch) of None \<Rightarrow> Candle_new K f | Some cd \<Rightarrow> cd)))\<rparr>)"
    using update_candle [OF assms(1,2,4), of K st] assms(3) by (simp add: add.commute)
qed

theorem candle_effect_witness:
  "effect (config ex_flicker) = Some ''candle''
   \<and> candle (config ex_flicker) = Some \<lparr>level = (50, 100)\<rparr>
   \<and> level \<lparr>level = (50, 100)\<rparr> = (50, 100)
   \<and> parseColorToHsv ex_lib (hue (config ex_flicker)) = Inr (Some (0, 100, 100))
   \<and> candles ex_state (cid ex_flicker) = None
   \<and> candles (update_n (Suc 2) ex_lib ex_candle ex_flicker ex_state) (cid ex_flicker) = Some 153
   \<and> trace (snd (update ex_lib ex_candle ex_flicker ex_state)) =
       [(0, Updating 0), (0, Store 0 0 0), (0, Store 0 1 100), (0, Store 0 2 70)]"
proof -
  have a: "effect (config ex_flicker) = Some ''candle''"
    and b: "candle (config ex_flicker) = Some \<lparr>level = (50, 100)\<rparr>"
    and c: "level \<lparr>level = (50, 100)\<rparr> = (50, 100)"
    and d: "parseColorToHsv ex_lib (hue (config ex_flicker)) = Inr (Some (0, 100, 100))"
    by (simp_all add: ex_flicker_simps ex_parse)
  have e: "candles ex_state (cid ex_flicker) = None" by (simp add: ex_state_simps)
  have k: "Candle_new ex_candle f = 0" "Candle_update ex_candle m = (m + 51) mod 256"
    "Candle_flame ex_candle m = real m" for f m
    by (simp_all add: ex_candle_def)
  show ?thesis
    using a b c d e candle_effect [OF a b c d, of 2 ex_candle ex_state]
    by (simp add: k write_out_def ex_flicker_simps color_list_def ex_state_simps upt_conv_Cons
          numeral_2_eq_2 del: update_n.simps)
qed

text \<open>
  C9. If some configured channel names a universe that is not configured, startup ends
  with a fatal error (\<open>No matching universe\<close>, or the error of a universe's constructor,
  which runs first), and the frame counter and the trace stay empty; so it does whenever a
  universe's constructor throws. If every name resolves, wiring succeeds: every channel is
  constructed on a universe of the name it asked for. Wiring is reached when the
  universes have been constructed; then the loop is run on the wired channels, and unless
  \<open>quit\<close> is already set the first frame is produced.
\<close>

theorem startup_resolves_universes:
  "((\<exists>c \<in> set cs. universe c \<notin> name ` set us) \<longrightarrow>
      fst (main U E L K us cs fuel) =
        Fatal (case universes_new U us of Some e \<Rightarrow> e | None \<Rightarrow> Error ''No matching universe'')
      \<and> frame (snd (main U E L K us cs fuel)) = 0
      \<and> trace (snd (main U E L K us cs fuel)) = [])
   \<and> (universes_new U us = Some e \<longrightarrow>
      fst (main U E L K us cs fuel) = Fatal e
      \<and> frame (snd (main U E L K us cs fuel)) = 0
      \<and> trace (snd (main U E L K us cs fuel)) = [])
   \<and> ((\<forall>c \<in> set cs. universe c \<in> name ` set us) \<longrightarrow>
      wire us 0 cs = Inr (wired us 0 cs)
      \<and> length (wired us 0 cs) = length cs
      \<and> (\<forall>ch \<in> set (wired us 0 cs). univ ch < length us \<and> name (us ! univ ch) = universe (config ch))
      \<and> (universes_new U us = None \<longrightarrow>
           main U E L K us cs fuel = loop fuel E L K (wired us 0 cs) (length us) (init_state us)
           \<and> (\<not> quit E 0 \<longrightarrow> 0 < frame (snd (main U E L K us cs (Suc fuel))))))"
proof (intro conjI impI)
  assume bad: "\<exists>c \<in> set cs. universe c \<notin> name ` set us"
  have m: "main U E L K us cs fuel =
      (case universes_new U us of
         Some e \<Rightarrow> (Fatal e, init_state [])
       | None \<Rightarrow> (Fatal (Error ''No matching universe''), init_state us))"
    by (simp add: main_def wire_fail [OF bad] split: option.splits)
  show "fst (main U E L K us cs fuel) =
        Fatal (case universes_new U us of Some e \<Rightarrow> e | None \<Rightarrow> Error ''No matching universe'')"
    by (simp add: m split: option.splits)
  show "frame (snd (main U E L K us cs fuel)) = 0"
    by (simp add: m init_state_def split: option.splits)
  show "trace (snd (main U E L K us cs fuel)) = []"
    by (simp add: m init_state_def split: option.splits)
next
  assume thrown: "universes_new U us = Some e"
  have m: "main U E L K us cs fuel = (Fatal e, init_state [])"
    by (simp add: main_def thrown)
  show "fst (main U E L K us cs fuel) = Fatal e" by (simp add: m)
  show "frame (snd (main U E L K us cs fuel)) = 0" by (simp add: m init_state_def)
  show "trace (snd (main U E L K us cs fuel)) = []" by (simp add: m init_state_def)
next
  assume ok: "\<forall>c \<in> set cs. universe c \<in> name ` set us"
  show "wire us 0 cs = Inr (wired us 0 cs)" by (rule wire_ok [OF ok])
  show "length (wired us 0 cs) = length cs" by (rule wired_length [OF ok])
  show "\<forall>ch \<in> set (wired us 0 cs). univ ch < length us \<and> name (us ! univ ch) = universe (config ch)"
    by (rule wired_resolved [OF ok])
  assume built: "universes_new U us = None"
  show "main U E L K us cs fuel = loop fuel E L K (wired us 0 cs) (length us) (init_state us)"
    by (simp add: main_def built wire_ok [OF ok])
  assume nq: "\<not> quit E 0"
  have "frame (init_state us :: 'a state)
          < frame (snd (loop (Suc fuel) E L K (wired us 0 cs) (length us) (init_state us :: 'a state)))"
    by (rule loop_starts) (simp add: init_state_def nq)
  then show "0 < frame (snd (main U E L K us cs (Suc fuel)))"
    by (simp add: main_def built wire_ok [OF ok] init_state_def)
qed

theorem startup_resolves_universes_witness:
  "universe ((ex_config 0 ''rgb'' ''red'')\<lparr>universe := ''attic''\<rparr>) \<notin> name ` set [ex_universe]
   \<and> fst (main ex_e131 ex_env ex_lib ex_candle [ex_universe]
        [ex_config 0 ''rgb'' ''peru'', (ex_config 0 ''rgb'' ''red'')\<lparr>universe := ''attic''\<rparr>] 5) =
       Fatal (Error ''No matching universe'')
   \<and> universes_new ex_e131 [ex_universe_empty] = Some RangeError
   \<and> universe (ex_config 0 ''rgb'' ''peru'') \<in> name ` set [ex_universe_empty]
   \<and> fst (main ex_e131 ex_env ex_lib ex_candle [ex_universe_empty] [ex_config 0 ''rgb'' ''peru''] 5) =
       Fatal RangeError
   \<and> universe (ex_config 0 ''rgb'' ''peru'') \<in> name ` set [ex_universe]
   \<and> universes_new ex_e131 [ex_universe] = None
   \<and> \<not> quit ex_env 0
   \<and> wire [ex_universe] 0 [ex_config 0 ''rgb'' ''peru''] = Inr [ex_channel 0 0 ''rgb'' ''peru'']
   \<and> 0 < frame (snd (main ex_e131 ex_env ex_lib ex_candle [ex_universe] [ex_config 0 ''rgb'' ''peru''] (Suc 4)))"
proof -
  have attic: "universe ((ex_config 0 ''rgb'' ''red'')\<lparr>universe := ''attic''\<rparr>) \<notin> name ` set [ex_universe]"
    by (simp add: ex_config_def ex_universe_def)
  have stage: "universe (ex_config 0 ''rgb'' ''peru'') \<in> name ` set [ex_universe]"
    by (simp add: ex_config_def ex_universe_def)
  have stage0: "universe (ex_config 0 ''rgb'' ''peru'') \<in> name ` set [ex_universe_empty]"
    by (simp add: ex_config_def ex_universe_empty_def)
  have bad: "\<exists>c \<in> set [ex_config 0 ''rgb'' ''peru'', (ex_config 0 ''rgb'' ''red'')\<lparr>universe := ''attic''\<rparr>].
       universe c \<notin> name ` set [ex_universe]"
    using attic by simp
  have ok: "\<forall>c \<in> set [ex_config 0 ''rgb'' ''peru'']. universe c \<in> name ` set [ex_universe]"
    using stage by simp
  have nq: "\<not> quit ex_env 0" by (simp add: ex_env_def)
  have w: "wired [ex_universe] 0 [ex_config 0 ''rgb'' ''peru''] = [ex_channel 0 0 ''rgb'' ''peru'']"
    by (simp add: ex_config_def ex_universe_def ex_channel_def)
  have fatal: "fst (main ex_e131 ex_env ex_lib ex_candle [ex_universe]
        [ex_config 0 ''rgb'' ''peru'', (ex_config 0 ''rgb'' ''red'')\<lparr>universe := ''attic''\<rparr>] 5) =
       Fatal (Error ''No matching universe'')"
    using bad
      startup_resolves_universes [of "[ex_config 0 ''rgb'' ''peru'', (ex_config 0 ''rgb'' ''red'')\<lparr>universe := ''attic''\<rparr>]"
        "[ex_universe]" ex_e131 ex_env ex_lib ex_candle 5]
    by (simp add: ex_new del: universes_new.simps)
  have thrown: "fst (main ex_e131 ex_env ex_lib ex_candle [ex_universe_empty] [ex_config 0 ''rgb'' ''peru''] 5) =
       Fatal RangeError"
    using ex_new(2)
      startup_resolves_universes [where cs = "[ex_config 0 ''rgb'' ''peru'']"
        and us = "[ex_universe_empty]" and U = ex_e131 and e = RangeError and E = ex_env
        and L = ex_lib and K = ex_candle and fuel = 5]
    by blast
  have runs: "wire [ex_universe] 0 [ex_config 0 ''rgb'' ''peru''] = Inr [ex_channel 0 0 ''rgb'' ''peru'']
      \<and> 0 < frame (snd (main ex_e131 ex_env ex_lib ex_candle [ex_universe] [ex_config 0 ''rgb'' ''peru''] (Suc 4)))"
    using ok nq w ex_new(1)
      startup_resolves_universes [of "[ex_config 0 ''rgb'' ''peru'']" "[ex_universe]" ex_e131
        ex_env ex_lib ex_candle 4]
    by simp
  show ?thesis using attic stage stage0 nq fatal thrown runs ex_new by blast
qed

text \<open>
  C10. For a color value \<open>d\<close> of three components and a Channel of offset \<open>o\<close>, \<open>_set\<close>
  executes exactly the stores \<open>buffer[i] = d[i]\<close> for \<open>o \<le> i < 3\<close>, in this order; in the
  universe's buffer the positions \<open>i\<close> with \<open>o \<le> i < 3\<close> that exist hold \<open>d[i]\<close> as a byte
  and every other position is unchanged, and no other buffer changes.
\<close>

theorem Channel_set_writes_suffix:
  "length d = 3 \<Longrightarrow>
   trace (Channel_set ch d st) =
     trace st @ map (\<lambda>i. (frame st, Store (univ ch) i (d ! i))) [channel (config ch)..<3]
   \<and> bufs (Channel_set ch d st) =
       (bufs st)(univ ch :=
          map (\<lambda>i. if channel (config ch) \<le> i \<and> i < 3 then to_uint8 (d ! i) else bufs st (univ ch) ! i)
            [0..<length (bufs st (univ ch))])
   \<and> candles (Channel_set ch d st) = candles st
   \<and> frame (Channel_set ch d st) = frame st"
proof -
  assume len: "length d = 3"
  have "bufs (Channel_set ch d st) u' =
       ((bufs st)(univ ch :=
          map (\<lambda>i. if channel (config ch) \<le> i \<and> i < 3 then to_uint8 (d ! i) else bufs st (univ ch) ! i)
            [0..<length (bufs st (univ ch))])) u'" for u'
  proof (cases "u' = univ ch")
    case True
    then show ?thesis using len by (simp add: Channel_set_def set_loop_bufs)
  next
    case False
    then show ?thesis by (simp add: Channel_set_def set_loop_bufs_other)
  qed
  then have "bufs (Channel_set ch d st) =
       (bufs st)(univ ch :=
          map (\<lambda>i. if channel (config ch) \<le> i \<and> i < 3 then to_uint8 (d ! i) else bufs st (univ ch) ! i)
            [0..<length (bufs st (univ ch))])"
    by (rule ext)
  then show ?thesis using len by (simp add: Channel_set_def set_loop_trace)
qed


theorem Channel_set_writes_suffix_witness:
  "length [10, 20, 30 :: real] = 3
   \<and> trace (Channel_set (ex_channel 0 1 ''hsv'' ''red'') [10, 20, 30] ex_state) =
       [(0, Store 0 1 20), (0, Store 0 2 30)]
   \<and> bufs (Channel_set (ex_channel 0 1 ''hsv'' ''red'') [10, 20, 30] ex_state) 0 = [0, 20, 30, 0, 0, 0]"
  using Channel_set_writes_suffix [of "[10, 20, 30]" "ex_channel 0 1 ''hsv'' ''red''" ex_state]
  by (simp add: ex_channel_simps ex_state_simps upt_conv_Cons)


end
